theory Spec2Isabelle
  imports Complex_Main "HOL-Library.Multiset"
begin

section \<open>JavaScript values used by \<open>ChartContainer.render\<close>\<close>

text \<open>
  A JavaScript number is modelled as a real; the one non-real value the code can
  compute, \<open>NaN\<close>, is written \<open>None\<close> where it can arise (a sum over an array with a
  hole). Rounding of doubles is not modelled.

  A JavaScript array is its \<open>length\<close> and its properties at integer keys. Reading a key
  that was never written gives \<open>undefined\<close> (\<open>None\<close>). Writing at a key \<open>i \<ge> 0\<close> makes
  the length at least \<open>i + 1\<close>; writing at a negative key stores a property and leaves
  the length alone.
\<close>

type_synonym js_number = "real option"

record js_array =
  arr_length :: nat
  arr_at :: "int \<Rightarrow> real option"

definition empty_array :: js_array where
  "empty_array = \<lparr>arr_length = 0, arr_at = (\<lambda>_. None)\<rparr>"

definition arr_set :: "js_array \<Rightarrow> int \<Rightarrow> real \<Rightarrow> js_array" where
  "arr_set a i v =
     \<lparr>arr_length = (if 0 \<le> i then max (arr_length a) (nat i + 1) else arr_length a),
      arr_at = (arr_at a)(i \<mapsto> v)\<rparr>"

text \<open>The elements at the keys \<open>0 .. length - 1\<close>, holes included.\<close>

definition arr_elems :: "js_array \<Rightarrow> real option list" where
  "arr_elems a = map (\<lambda>i. arr_at a (int i)) [0..<arr_length a]"

text \<open>\<open>a + b\<close> where either side may be \<open>undefined\<close> or \<open>NaN\<close>: the result is then \<open>NaN\<close>.\<close>

definition num_add :: "js_number \<Rightarrow> js_number \<Rightarrow> js_number" where
  "num_add a b = (case a of None \<Rightarrow> None | Some x \<Rightarrow> (case b of None \<Rightarrow> None | Some y \<Rightarrow> Some (x + y)))"

definition num_sub :: "js_number \<Rightarrow> js_number \<Rightarrow> js_number" where
  "num_sub a b = (case a of None \<Rightarrow> None | Some x \<Rightarrow> (case b of None \<Rightarrow> None | Some y \<Rightarrow> Some (x - y)))"

text \<open>\<open>_.reduce(arr, (a, b) => a + b, 0)\<close>: underscore visits the keys \<open>0 .. length - 1\<close>.\<close>

definition reduce_sum :: "js_array \<Rightarrow> js_number" where
  "reduce_sum a = fold (\<lambda>b acc. num_add acc b) (arr_elems a) (Some 0)"

text \<open>
  \<open>parseInt(x, 10)\<close> of a number reads the number's decimal string. That string has no
  exponent exactly when the number is zero or its magnitude is from \<open>1e-6\<close> up to, but
  not including, \<open>1e21\<close>; \<open>parseInt\<close> then reads the digits before the decimal point,
  which is the number truncated towards zero. From a string with an exponent it reads the
  digits before the point of the mantissa (5 for \<open>2^-24\<close>, 1 for \<open>1e21\<close>). A height is
  modelled as a number of the first kind: heights that print with an exponent are not
  values of the type \<open>plain_number\<close>, and nothing is stated about them.
\<close>

definition plain_decimal :: "real \<Rightarrow> bool" where
  "plain_decimal x = (x = 0 \<or> (1 / 10 ^ 6 \<le> \<bar>x\<bar> \<and> \<bar>x\<bar> < 10 ^ 21))"

typedef plain_number = "{x :: real. plain_decimal x}"
  by (rule exI [of _ 0]) (simp add: plain_decimal_def)

text \<open>The plain number of value \<open>x\<close>, for an \<open>x\<close> with \<open>plain_decimal x\<close>.\<close>

definition plain :: "real \<Rightarrow> plain_number" where
  "plain x = Abs_plain_number x"

definition parseInt10 :: "plain_number \<Rightarrow> real" where
  "parseInt10 h =
     (if Rep_plain_number h < 0 then of_int \<lceil>Rep_plain_number h\<rceil>
      else of_int \<lfloor>Rep_plain_number h\<rfloor>)"

section \<open>The component tree\<close>

text \<open>
  A child of a \<open>ChartRow\<close> is \<open>null\<close>, a \<open>Charts\<close>, a \<open>Brush\<close>, a \<open>MultiBrush\<close>, or any
  other element, which the code treats as an axis column and of which it reads two props:
  \<^item> \<open>axis_width\<close> is \<open>Number(child.props.width)\<close>, \<open>None\<close> when that is \<open>NaN\<close> (the prop
    is absent or not numeric);
  \<^item> \<open>axis_visible\<close> is \<open>None\<close> when the props have no \<open>visible\<close> key, and otherwise the
    truthiness of \<open>child.props.visible\<close>.
\<close>

datatype child =
    Null
  | Charts
  | Brush
  | MultiBrush
  | Axis (axis_width: "real option") (axis_visible: "bool option")

text \<open>
  A child of the container is a \<open>ChartRow\<close>, with its children, the truthiness of its
  \<open>visible\<close> prop and its \<open>height\<close> prop (a number that prints without an exponent), or an
  element of another type.
\<close>

datatype element =
    ChartRow (row_children: "child list") (row_visible: bool) (row_height: plain_number)
  | OtherElement

text \<open>
  A pondjs \<open>TimeRange\<close>, as the two epoch-millisecond instants that
  \<open>timeRange.toJSON()\<close> returns.
\<close>

record time_range =
  tr_begin :: real
  tr_end :: real

text \<open>
  The props of the container that the layout reads: \<open>width\<close> (800 by default) and
  \<open>padding\<close> (0 by default); \<open>paddingLeft\<close> and \<open>paddingRight\<close>, \<open>None\<close> when undefined;
  \<open>timeRange\<close>, \<open>None\<close> when it is absent (falsy); \<open>utc\<close>; \<open>trackerPosition\<close>, a \<open>Date\<close>
  as its epoch milliseconds (an object, so truthy whatever its value) or \<open>None\<close> when
  absent; and the children.
\<close>

record props =
  width :: real
  padding :: real
  paddingLeft :: "real option"
  paddingRight :: "real option"
  timeRange :: "time_range option"
  utc :: bool
  trackerPosition :: "real option"
  children :: "element list"

datatype error =
    InvariantViolation  \<comment> \<open>\<open>invariant(false, "ChartRow should have one and only one <Charts> tag within it")\<close>\<close>
  | InvalidTimerange    \<comment> \<open>\<open>throw Error("Invalid timerange passed to ChartContainer")\<close>\<close>

section \<open>Axis column widths\<close>

datatype align = AlignLeft | AlignRight

text \<open>
  The first walk over a row's children; the state is \<open>(countLeft, countCharts, align)\<close>.
\<close>

fun count_step :: "child \<Rightarrow> nat \<times> nat \<times> align \<Rightarrow> nat \<times> nat \<times> align" where
  "count_step Null s = s"
| "count_step Charts (countLeft, countCharts, al) = (countLeft, countCharts + 1, AlignRight)"
| "count_step Brush s = s"
| "count_step MultiBrush s = s"
| "count_step (Axis w v) (countLeft, countCharts, al) =
     (if al = AlignLeft then (countLeft + 1, countCharts, al) else (countLeft, countCharts, al))"

text \<open>\<open>Number(child.props.width) || 40\<close>: \<open>NaN\<close> and \<open>0\<close> are falsy.\<close>

definition number_or_40 :: "real option \<Rightarrow> real" where
  "number_or_40 w = (case w of None \<Rightarrow> 40 | Some n \<Rightarrow> if n = 0 then 40 else n)"

text \<open>\<open>!_.has(child.props, "visible") || child.props.visible\<close>\<close>

definition is_visible :: "bool option \<Rightarrow> bool" where
  "is_visible v = (case v of None \<Rightarrow> True | Some b \<Rightarrow> b)"

text \<open>The value of the variable \<open>width\<close> when the column is merged into the arrays.\<close>

definition slot_width :: "real option \<Rightarrow> bool option \<Rightarrow> real" where
  "slot_width w v = (if is_visible v then number_or_40 w else 0)"

text \<open>
  \<open>widths[pos] ? Math.max(width, widths[pos]) : width\<close>: \<open>undefined\<close> and \<open>0\<close> are falsy.
\<close>

definition merge_width :: "real option \<Rightarrow> real \<Rightarrow> real" where
  "merge_width cur w = (case cur of None \<Rightarrow> w | Some c \<Rightarrow> if c \<noteq> 0 then max w c else w)"

text \<open>
  The second walk; the state is \<open>(align, pos, leftAxisWidths, rightAxisWidths)\<close>.
\<close>

fun width_step :: "child \<Rightarrow> align \<times> int \<times> js_array \<times> js_array \<Rightarrow> align \<times> int \<times> js_array \<times> js_array" where
  "width_step Null s = s"
| "width_step Charts (al, pos, L, R) = (AlignRight, 0, L, R)"
| "width_step Brush s = s"
| "width_step MultiBrush s = s"
| "width_step (Axis w v) (al, pos, L, R) =
     (case al of
        AlignLeft \<Rightarrow> (al, pos - 1, arr_set L pos (merge_width (arr_at L pos) (slot_width w v)), R)
      | AlignRight \<Rightarrow> (al, pos + 1, L, arr_set R pos (merge_width (arr_at R pos) (slot_width w v))))"

text \<open>
  The body of the outer loop for one \<open>ChartRow\<close>: count, check the invariant, merge the
  row's columns into the two arrays shared by all rows.
\<close>

definition layout_row :: "child list \<Rightarrow> js_array \<times> js_array \<Rightarrow> error + js_array \<times> js_array" where
  "layout_row cs LR =
     (case fold count_step cs (0, 0, AlignLeft) of
        (countLeft, countCharts, al) \<Rightarrow>
          if countCharts \<noteq> 1 then Inl InvariantViolation
          else (case fold width_step cs (AlignLeft, int countLeft - 1, fst LR, snd LR) of
                  (al', pos, L, R) \<Rightarrow> Inr (L, R)))"

fun axis_widths_loop :: "element list \<Rightarrow> js_array \<times> js_array \<Rightarrow> error + js_array \<times> js_array" where
  "axis_widths_loop [] LR = Inr LR"
| "axis_widths_loop (OtherElement # es) LR = axis_widths_loop es LR"
| "axis_widths_loop (ChartRow cs vis h # es) LR =
     (case layout_row cs LR of
        Inl e \<Rightarrow> Inl e
      | Inr LR' \<Rightarrow> axis_widths_loop es LR')"

definition axis_widths :: "element list \<Rightarrow> error + js_array \<times> js_array" where
  "axis_widths es = axis_widths_loop es (empty_array, empty_array)"

section \<open>Row stacking\<close>

text \<open>
  A pushed row group is kept as the index \<open>i\<close> of its key \<open>chart-row-row-i\<close> and the
  \<open>yPosition\<close> of its transform. The loop state is \<open>(i, yPosition, chartRows)\<close>. The
  source builds the transform string for every \<open>ChartRow\<close>, but uses it only in the group
  it pushes when the row is visible; \<open>i\<close> counts every child of the container.
\<close>

record row_group =
  row_key :: nat
  row_y :: real

fun rows_step :: "element \<Rightarrow> nat \<times> real \<times> row_group list \<Rightarrow> nat \<times> real \<times> row_group list" where
  "rows_step OtherElement (i, yPosition, chartRows) = (i + 1, yPosition, chartRows)"
| "rows_step (ChartRow cs isVisible h) (i, yPosition, chartRows) =
     (if isVisible
      then (i + 1, yPosition + parseInt10 h, chartRows @ [\<lparr>row_key = i, row_y = yPosition\<rparr>])
      else (i + 1, yPosition, chartRows))"

definition rows_loop :: "element list \<Rightarrow> nat \<times> real \<times> row_group list" where
  "rows_loop es = fold rows_step es (0, 0, [])"

section \<open>Time range, time scale and tracker\<close>

text \<open>
  Modelled from the spec: \<open>TimeRange.contains\<close> is pondjs code and not part of the sources.
  The spec's data model gives a \<open>TimeRange\<close> a containment test on its ordered pair of
  instants; for an instant it is taken as membership in the closed interval.
\<close>

definition contains :: "time_range \<Rightarrow> real \<Rightarrow> bool" where
  "contains tr t = (tr_begin tr \<le> t \<and> t \<le> tr_end tr)"

text \<open>
  What \<open>render\<close> hands to d3: \<open>scaleUtc()\<close> or \<open>scaleTime()\<close>, the domain
  \<open>timeRange.toJSON()\<close> and the range \<open>[0, timeAxisWidth]\<close>.
\<close>

record time_scale =
  scale_utc :: bool
  scale_domain :: "real \<times> real"
  scale_range :: "real \<times> js_number"

record time_marker =
  marker_time :: real
  marker_width :: js_number
  marker_height :: real

record layout =
  leftAxisWidths :: js_array
  rightAxisWidths :: js_array
  leftWidth :: js_number
  rightWidth :: js_number
  timeAxisWidth :: js_number
  timeScale :: time_scale
  chartRows :: "row_group list"
  chartsHeight :: real
  tracker :: "time_marker option"

text \<open>
  \<open>render\<close>, as far as the layout goes. The locals \<open>pl\<close>, \<open>pr\<close>, \<open>lw\<close>, \<open>rw\<close> and \<open>taw\<close>
  are the source's \<open>paddingLeft\<close>, \<open>paddingRight\<close>, \<open>leftWidth\<close>, \<open>rightWidth\<close> and
  \<open>timeAxisWidth\<close> (\<open>chartsWidth\<close> is the same expression). The order of the source is
  kept: the axis widths (where the invariant may throw), the totals, the check of the time
  range, the scale, the rows, the tracker. A throw is \<open>Inl\<close>.
\<close>

definition render :: "props \<Rightarrow> error + layout" where
  "render p =
     (let pl = (case paddingLeft p of None \<Rightarrow> padding p | Some x \<Rightarrow> x);
          pr = (case paddingRight p of None \<Rightarrow> padding p | Some x \<Rightarrow> x)
      in case axis_widths (children p) of
           Inl e \<Rightarrow> Inl e
         | Inr (L, R) \<Rightarrow>
             let lw = reduce_sum L;
                 rw = reduce_sum R;
                 taw = num_sub (num_sub (num_sub (num_sub (Some (width p)) lw) rw) (Some pl)) (Some pr)
             in (case timeRange p of
                   None \<Rightarrow> Inl InvalidTimerange
                 | Some tr \<Rightarrow>
                     (case rows_loop (children p) of
                        (i, yPosition, rows) \<Rightarrow>
                          Inr \<lparr>leftAxisWidths = L,
                               rightAxisWidths = R,
                               leftWidth = lw,
                               rightWidth = rw,
                               timeAxisWidth = taw,
                               timeScale = \<lparr>scale_utc = utc p,
                                            scale_domain = (tr_begin tr, tr_end tr),
                                            scale_range = (0, taw)\<rparr>,
                               chartRows = rows,
                               chartsHeight = yPosition,
                               tracker =
                                 (case trackerPosition p of
                                    None \<Rightarrow> None
                                  | Some t \<Rightarrow>
                                      if contains tr t
                                      then Some \<lparr>marker_time = t, marker_width = taw,
                                                 marker_height = yPosition\<rparr>
                                      else None)\<rparr>)))"

section \<open>The time scale and the pointer interactions, from the spec\<close>

text \<open>
  Modelled from the spec: the functions \<open>scaleTime\<close> and \<open>scaleUtc\<close> are d3-scale code and
  not part of the sources. The spec describes the scale as the monotonic linear mapping from
  \<open>[timeRange.begin, timeRange.end]\<close> to \<open>[0, pixelWidth]\<close>, and its exact inverse. They are
  the interpolation between the domain and the range that \<open>render\<close> passes, over the reals.
  The spec does not say where a domain of one instant is sent; the start of the range is
  taken. A range end that is \<open>NaN\<close> gives \<open>NaN\<close>.
\<close>

definition scale_apply :: "time_scale \<Rightarrow> real \<Rightarrow> js_number" where
  "scale_apply s t =
     (case scale_range s of
        (r0, None) \<Rightarrow> None
      | (r0, Some r1) \<Rightarrow>
          (case scale_domain s of
             (d0, d1) \<Rightarrow>
               if d1 = d0 then Some r0
               else Some (r0 + (t - d0) / (d1 - d0) * (r1 - r0))))"

definition scale_invert :: "time_scale \<Rightarrow> real \<Rightarrow> js_number" where
  "scale_invert s x =
     (case scale_range s of
        (r0, None) \<Rightarrow> None
      | (r0, Some r1) \<Rightarrow>
          (case scale_domain s of
             (d0, d1) \<Rightarrow>
               if r1 = r0 then Some d0
               else Some (d0 + (x - r0) / (r1 - r0) * (d1 - d0))))"

text \<open>
  Modelled from the spec: the handlers of \<open>EventHandler\<close> are not part of the sources (only
  the declaration file \<open>EventHandler.d.ts\<close> with the types of its props and state is). The
  three transitions of the spec's interaction state machine that produce a time range
  follow, in the spec's words, each with the guarantee the spec gives for all of them. The
  configuration holds the optional props \<open>minDuration\<close>, \<open>minTime\<close> and \<open>maxTime\<close> of the
  declaration file; \<open>invert\<close> is the inverse of the time scale, from pixels to instants.
\<close>

record interaction_config =
  minDuration :: "real option"
  minTime :: "real option"
  maxTime :: "real option"

definition duration :: "time_range \<Rightarrow> real" where
  "duration r = tr_end r - tr_begin r"







text \<open>
  Modelled from the spec: wheel, "new range = current range scaled around the pointer's time position (the time
  under the cursor remains fixed post-zoom); clamp resulting duration to \<open>\<ge>\<close> minDuration and
  to configured min/max bounds". The zoom factor is an argument. A range shorter than
  \<open>minDuration\<close> is widened to it with the cursor's instant at the same share of the range
  as before (the middle, for a current range of one instant, where the spec gives no
  share); then the guarantee is enforced and the bounds are applied as for a pan.
\<close>

definition scale_around :: "real \<Rightarrow> real \<Rightarrow> time_range \<Rightarrow> time_range" where
  "scale_around c factor r =
     \<lparr>tr_begin = c - (c - tr_begin r) * factor, tr_end = c + (tr_end r - c) * factor\<rparr>"

definition clamp_duration :: "interaction_config \<Rightarrow> real \<Rightarrow> time_range \<Rightarrow> time_range \<Rightarrow> time_range" where
  "clamp_duration cfg c current scaled =
     (case minDuration cfg of
        None \<Rightarrow> scaled
      | Some d \<Rightarrow>
          if duration scaled < d
          then (let share = (if duration current = 0 then 1 / 2
                             else (c - tr_begin current) / duration current)
                in \<lparr>tr_begin = c - share * d, tr_end = c - share * d + d\<rparr>)
          else scaled)"


section \<open>Notions the properties are stated with\<close>

text \<open>The children lists of the \<open>ChartRow\<close>s of a container, in order.\<close>

fun chart_rows :: "element list \<Rightarrow> child list list" where
  "chart_rows [] = []"
| "chart_rows (ChartRow cs vis h # es) = cs # chart_rows es"
| "chart_rows (OtherElement # es) = chart_rows es"

text \<open>The number of plot slots (\<open>Charts\<close>) of a row, and the rows that have exactly one.\<close>

definition num_charts :: "child list \<Rightarrow> nat" where
  "num_charts cs = length (filter (\<lambda>c. c = Charts) cs)"

definition rows_valid :: "element list \<Rightarrow> bool" where
  "rows_valid es = (\<forall>cs \<in> set (chart_rows es). num_charts cs = 1)"

text \<open>
  The children that take a column, and the width a child contributes (the value of the
  source's variable \<open>width\<close> for a column, nothing for the others).
\<close>

definition is_axis :: "child \<Rightarrow> bool" where
  "is_axis c = (case c of Axis w v \<Rightarrow> True | _ \<Rightarrow> False)"

definition child_width :: "child \<Rightarrow> real" where
  "child_width c = (case c of Axis w v \<Rightarrow> slot_width w v | _ \<Rightarrow> 0)"

definition widths_nonneg :: "element list \<Rightarrow> bool" where
  "widths_nonneg es = (\<forall>cs \<in> set (chart_rows es). \<forall>c \<in> set cs. 0 \<le> child_width c)"

text \<open>
  The width of a slot in the spec's words, which the code's arrays are compared with: the
  declared width, 40 when none is declared (or what is declared is not a number), and 0 for
  an invisible slot, whatever is declared. A slot is visible unless its \<open>visible\<close> prop is
  there and falsy. It differs from the source's \<open>width\<close> where the declared width is 0.
\<close>

definition declared_slot_width :: "real option \<Rightarrow> bool option \<Rightarrow> real" where
  "declared_slot_width w v = (if is_visible v then (case w of None \<Rightarrow> 40 | Some n \<Rightarrow> n) else 0)"

definition declared_width :: "child \<Rightarrow> real" where
  "declared_width c = (case c of Axis w v \<Rightarrow> declared_slot_width w v | _ \<Rightarrow> 0)"

definition slot_visible :: "child \<Rightarrow> bool" where
  "slot_visible c = (case c of Axis w v \<Rightarrow> is_visible v | _ \<Rightarrow> False)"

text \<open>Every visible slot of every row has a declared width above 0 (or none).\<close>

definition widths_positive :: "element list \<Rightarrow> bool" where
  "widths_positive es =
     (\<forall>cs \<in> set (chart_rows es). \<forall>c \<in> set cs. slot_visible c \<longrightarrow> 0 < declared_width c)"

text \<open>
  The spec's indexing of a row's slots: the widths of the columns left of the plot, listed
  from the plot outwards (element 0 is the column next to the plot), and of the columns
  right of the plot, again from the plot outwards; with the spec's widths
  (\<open>declared_left_slots\<close>, \<open>declared_right_slots\<close>) and with the values of the source's
  variable \<open>width\<close> (\<open>left_slots\<close>, \<open>right_slots\<close>).
\<close>

definition declared_left_slots :: "child list \<Rightarrow> real list" where
  "declared_left_slots cs =
     rev (map declared_width (filter is_axis (takeWhile (\<lambda>c. c \<noteq> Charts) cs)))"

definition declared_right_slots :: "child list \<Rightarrow> real list" where
  "declared_right_slots cs =
     map declared_width (filter is_axis (dropWhile (\<lambda>c. c \<noteq> Charts) cs))"

definition left_slots :: "child list \<Rightarrow> real list" where
  "left_slots cs = rev (map child_width (filter is_axis (takeWhile (\<lambda>c. c \<noteq> Charts) cs)))"

definition right_slots :: "child list \<Rightarrow> real list" where
  "right_slots cs = map child_width (filter is_axis (dropWhile (\<lambda>c. c \<noteq> Charts) cs))"

text \<open>
  The spec's column widths: a row's width at a position (0 where it has no slot there), the
  maximum of these over the rows, and the list of the maxima for as many positions as the
  longest row has.
\<close>

definition slot_at :: "real list \<Rightarrow> nat \<Rightarrow> real" where
  "slot_at ws pos = (if pos < length ws then ws ! pos else 0)"

definition column_max :: "real list list \<Rightarrow> nat \<Rightarrow> real" where
  "column_max wss pos =
     (case wss of [] \<Rightarrow> 0 | ws # rest \<Rightarrow> fold (\<lambda>ws m. max (slot_at ws pos) m) rest (slot_at ws pos))"

definition columns :: "real list list \<Rightarrow> nat" where
  "columns wss = fold (\<lambda>ws n. max (length ws) n) wss 0"

definition column_widths :: "real list list \<Rightarrow> real list" where
  "column_widths wss = map (column_max wss) [0..<columns wss]"

text \<open>The effective paddings, \<open>paddingLeft = padding\<close> and \<open>paddingRight = padding\<close> by default.\<close>

definition pad_left :: "props \<Rightarrow> real" where
  "pad_left p = (case paddingLeft p of None \<Rightarrow> padding p | Some x \<Rightarrow> x)"

definition pad_right :: "props \<Rightarrow> real" where
  "pad_right p = (case paddingRight p of None \<Rightarrow> padding p | Some x \<Rightarrow> x)"

text \<open>The heights, as \<open>parseInt\<close> reads them, of the visible \<open>ChartRow\<close>s, in order.\<close>

fun visible_heights :: "element list \<Rightarrow> real list" where
  "visible_heights [] = []"
| "visible_heights (ChartRow cs vis h # es) =
     (if vis then parseInt10 h # visible_heights es else visible_heights es)"
| "visible_heights (OtherElement # es) = visible_heights es"



section \<open>Auxiliary definitions for the proofs\<close>

text \<open>
  The effect of one row on a width array, in closed form: the widths \<open>ws\<close> merged at the
  keys \<open>0, 1, ...\<close>; at the keys \<open>p, p + 1, ...\<close>; at the keys \<open>p, p - 1, ...\<close>.
\<close>

definition merge_slots :: "js_array \<Rightarrow> real list \<Rightarrow> js_array" where
  "merge_slots A ws =
     \<lparr>arr_length = max (arr_length A) (length ws),
      arr_at = (\<lambda>i. if 0 \<le> i \<and> nat i < length ws
                     then Some (merge_width (arr_at A i) (ws ! nat i)) else arr_at A i)\<rparr>"

definition merge_up :: "js_array \<Rightarrow> int \<Rightarrow> real list \<Rightarrow> js_array" where
  "merge_up A p ws =
     \<lparr>arr_length = (if ws = [] then arr_length A else max (arr_length A) (nat p + length ws)),
      arr_at = (\<lambda>i. if p \<le> i \<and> i < p + int (length ws)
                     then Some (merge_width (arr_at A i) (ws ! nat (i - p))) else arr_at A i)\<rparr>"

definition merge_down :: "js_array \<Rightarrow> int \<Rightarrow> real list \<Rightarrow> js_array" where
  "merge_down A p ws =
     \<lparr>arr_length = (if ws = [] \<or> p < 0 then arr_length A else max (arr_length A) (nat p + 1)),
      arr_at = (\<lambda>i. if p - int (length ws) < i \<and> i \<le> p
                     then Some (merge_width (arr_at A i) (ws ! nat (p - i))) else arr_at A i)\<rparr>"

definition merge_rows :: "js_array \<Rightarrow> real list list \<Rightarrow> js_array" where
  "merge_rows A wss = fold (\<lambda>ws A. merge_slots A ws) wss A"

text \<open>An array without holes.\<close>

definition dense :: "js_array \<Rightarrow> bool" where
  "dense A = (\<forall>i. 0 \<le> i \<and> nat i < arr_length A \<longrightarrow> arr_at A i \<noteq> None)"

definition slots_nonneg :: "real list list \<Rightarrow> bool" where
  "slots_nonneg wss = (\<forall>ws \<in> set wss. \<forall>w \<in> set ws. 0 \<le> w)"

text \<open>The array that holds the spec's column widths, and nothing else.\<close>

definition columns_array :: "real list list \<Rightarrow> js_array" where
  "columns_array wss =
     \<lparr>arr_length = columns wss,
      arr_at = (\<lambda>i. if 0 \<le> i \<and> nat i < columns wss then Some (column_max wss (nat i)) else None)\<rparr>"

text \<open>The row groups the second loop pushes, from the counter \<open>i\<close> and the offset \<open>y\<close> on.\<close>

fun placed_rows :: "nat \<Rightarrow> real \<Rightarrow> element list \<Rightarrow> row_group list" where
  "placed_rows i y [] = []"
| "placed_rows i y (OtherElement # es) = placed_rows (i + 1) y es"
| "placed_rows i y (ChartRow cs vis h # es) =
     (if vis then \<lparr>row_key = i, row_y = y\<rparr> # placed_rows (i + 1) (y + parseInt10 h) es
      else placed_rows (i + 1) y es)"

section \<open>Example inputs\<close>

text \<open>
  The spec's scenario: a row \<open>[leftAxis(40), plot, rightAxis(30)]\<close> and a row
  \<open>[leftAxis(25), leftAxis(40), plot]\<close> in a container 800 wide without padding, over the
  time range from 0 ms to 100000 ms.
\<close>

definition scenario_rows :: "element list" where
  "scenario_rows =
     [ChartRow [Axis (Some 40) None, Charts, Axis (Some 30) None] True (plain 100),
      ChartRow [Axis (Some 25) None, Axis (Some 40) None, Charts] True (plain 100)]"

definition scenario_props :: props where
  "scenario_props =
     \<lparr>width = 800, padding = 0, paddingLeft = None, paddingRight = None,
      timeRange = Some \<lparr>tr_begin = 0, tr_end = 100000\<rparr>, utc = False,
      trackerPosition = None, children = scenario_rows\<rparr>"

text \<open>A row without columns and a row whose one column is 5 pixels wide, negatively.\<close>

definition negative_props :: props where
  "negative_props =
     \<lparr>width = 800, padding = 0, paddingLeft = None, paddingRight = None,
      timeRange = Some \<lparr>tr_begin = 0, tr_end = 100000\<rparr>, utc = False,
      trackerPosition = None,
      children = [ChartRow [Charts] True (plain 100),
                  ChartRow [Axis (Some (- 5)) None, Charts] True (plain 100)]\<rparr>"

text \<open>A row whose one column is declared 0 wide.\<close>

definition zero_width_props :: props where
  "zero_width_props =
     \<lparr>width = 800, padding = 0, paddingLeft = None, paddingRight = None,
      timeRange = Some \<lparr>tr_begin = 0, tr_end = 100000\<rparr>, utc = False,
      trackerPosition = None,
      children = [ChartRow [Axis (Some 0) None, Charts] True (plain 100)]\<rparr>"


text \<open>A row with a column of width \<open>-5\<close> and a row with an invisible column.\<close>

definition swap_props :: props where
  "swap_props =
     \<lparr>width = 800, padding = 0, paddingLeft = None, paddingRight = None,
      timeRange = Some \<lparr>tr_begin = 0, tr_end = 100000\<rparr>, utc = False,
      trackerPosition = None,
      children = [ChartRow [Axis (Some (- 5)) None, Charts] True (plain 100),
                  ChartRow [Axis None (Some False), Charts] True (plain 100)]\<rparr>"

text \<open>A valid row followed by a row with two plots; a row with no plot before a valid row.\<close>

definition two_plots_props :: props where
  "two_plots_props =
     \<lparr>width = 800, padding = 0, paddingLeft = None, paddingRight = None,
      timeRange = Some \<lparr>tr_begin = 0, tr_end = 100000\<rparr>, utc = False,
      trackerPosition = None,
      children = [ChartRow [Axis (Some 40) None, Charts, Axis (Some 30) None] True (plain 100),
                  ChartRow [Charts, Charts] True (plain 100)]\<rparr>"

definition no_plot_props :: props where
  "no_plot_props =
     \<lparr>width = 800, padding = 0, paddingLeft = None, paddingRight = None,
      timeRange = Some \<lparr>tr_begin = 0, tr_end = 100000\<rparr>, utc = False,
      trackerPosition = None,
      children = [ChartRow [Axis (Some 40) None] True (plain 100),
                  ChartRow [Axis (Some 40) None, Charts] True (plain 100)]\<rparr>"

text \<open>
  The scenario's rows in a container 50 wide, narrower than the axis columns; and the
  scenario with a time range whose begin is after its end.
\<close>

definition narrow_props :: props where
  "narrow_props =
     \<lparr>width = 50, padding = 0, paddingLeft = None, paddingRight = None,
      timeRange = Some \<lparr>tr_begin = 0, tr_end = 100000\<rparr>, utc = False,
      trackerPosition = None, children = scenario_rows\<rparr>"

definition reversed_props :: props where
  "reversed_props =
     \<lparr>width = 800, padding = 0, paddingLeft = None, paddingRight = None,
      timeRange = Some \<lparr>tr_begin = 100000, tr_end = 0\<rparr>, utc = False,
      trackerPosition = None, children = scenario_rows\<rparr>"

text \<open>Four rows: the second is invisible, the third is 100.5 high.\<close>

definition stack_props :: props where
  "stack_props =
     \<lparr>width = 800, padding = 0, paddingLeft = None, paddingRight = None,
      timeRange = Some \<lparr>tr_begin = 0, tr_end = 100000\<rparr>, utc = False,
      trackerPosition = None,
      children = [ChartRow [Charts] True (plain 100), ChartRow [Charts] False (plain 50),
                  ChartRow [Charts] True (plain (201 / 2)), ChartRow [Charts] True (plain 30)]\<rparr>"



section \<open>The two walks over a row\<close>

text \<open>Merging a list of widths at consecutive keys, one write at a time.\<close>

lemma merge_up_Nil: "merge_up A p [] = A"
  by (cases A) (auto simp: merge_up_def fun_eq_iff)

lemma merge_down_Nil: "merge_down A p [] = A"
  by (cases A) (auto simp: merge_down_def fun_eq_iff)

lemma merge_up_Cons:
  "0 \<le> p \<Longrightarrow> merge_up (arr_set A p (merge_width (arr_at A p) w)) (p + 1) ws = merge_up A p (w # ws)"
  unfolding merge_up_def arr_set_def
  by (auto simp: fun_eq_iff nth_Cons' nat_diff_distrib' nat_add_distrib)

lemma nat_pred_diff: "nat (p - 1 - x) = nat (p - x) - Suc 0"
  by arith

lemma merge_down_Cons:
  "merge_down (arr_set A p (merge_width (arr_at A p) w)) (p - 1) ws = merge_down A p (w # ws)"
  unfolding merge_down_def arr_set_def
  by (auto simp: fun_eq_iff nth_Cons' nat_pred_diff)

text \<open>The first walk counts the columns before the first plot, and the plots.\<close>

lemma count_fold_right:
  "fold count_step cs (n, k, AlignRight) = (n, k + num_charts cs, AlignRight)"
proof (induction cs arbitrary: k)
  case Nil
  show ?case by (simp add: num_charts_def)
next
  case (Cons c cs)
  show ?case using Cons.IH by (cases c) (simp_all add: num_charts_def)
qed

lemma count_fold_left:
  "fold count_step cs (n, k, AlignLeft) =
     (n + length (filter is_axis (takeWhile (\<lambda>c. c \<noteq> Charts) cs)), k + num_charts cs,
      if num_charts cs = 0 then AlignLeft else AlignRight)"
proof (induction cs arbitrary: n k)
  case Nil
  show ?case by (simp add: num_charts_def)
next
  case (Cons c cs)
  show ?case
  proof (cases c)
    case Charts
    then show ?thesis by (simp add: count_fold_right) (simp add: num_charts_def)
  qed (simp_all add: Cons.IH is_axis_def num_charts_def)
qed

text \<open>The second walk, right of the plot and left of it.\<close>

lemma width_fold_right:
  "Charts \<notin> set cs \<Longrightarrow> 0 \<le> p \<Longrightarrow>
   fold width_step cs (AlignRight, p, L, R) =
     (AlignRight, p + int (length (filter is_axis cs)), L,
      merge_up R p (map child_width (filter is_axis cs)))"
proof (induction cs arbitrary: p R)
  case Nil
  show ?case by (simp add: merge_up_Nil)
next
  case (Cons c cs)
  then have nc: "Charts \<notin> set cs" and c: "c \<noteq> Charts" by auto
  show ?case
  proof (cases c)
    case (Axis w v)
    have p1: "0 \<le> p + 1" using Cons.prems by simp
    show ?thesis
      unfolding Axis
      by (simp add: Cons.IH [OF nc p1] is_axis_def child_width_def merge_up_Cons [OF Cons.prems(2)])
  qed (use c Cons.IH [OF nc Cons.prems(2)] in \<open>simp_all add: is_axis_def\<close>)
qed

lemma width_fold_left:
  "Charts \<notin> set cs \<Longrightarrow>
   fold width_step cs (AlignLeft, p, L, R) =
     (AlignLeft, p - int (length (filter is_axis cs)),
      merge_down L p (map child_width (filter is_axis cs)), R)"
proof (induction cs arbitrary: p L)
  case Nil
  show ?case by (simp add: merge_down_Nil)
next
  case (Cons c cs)
  then have nc: "Charts \<notin> set cs" and c: "c \<noteq> Charts" by auto
  show ?case
  proof (cases c)
    case (Axis w v)
    show ?thesis
      unfolding Axis
      by (simp add: Cons.IH [OF nc] is_axis_def child_width_def merge_down_Cons)
  qed (use c Cons.IH [OF nc] in \<open>simp_all add: is_axis_def\<close>)
qed

lemma merge_up_0: "merge_up A 0 ws = merge_slots A ws"
  unfolding merge_up_def merge_slots_def
  by (cases "ws = []") (auto simp: fun_eq_iff)

lemma merge_down_top: "merge_down A (int (length ws) - 1) ws = merge_slots A (rev ws)"
proof -
  have idx: "nat (int (length ws) - 1 - i) = length ws - Suc (nat i)" if "0 \<le> i" for i
    using that by arith
  have top: "Suc (nat (int (length ws) - 1)) = length ws" if "ws \<noteq> []"
    using that by (cases ws) auto
  show ?thesis
    unfolding merge_down_def merge_slots_def
    by (cases "ws = []") (auto simp: fun_eq_iff rev_nth idx top)
qed

text \<open>A row with exactly one plot: the columns before it, the plot, the columns after it.\<close>

lemma split_at_charts:
  assumes "num_charts cs = 1"
  shows "\<exists>suf. cs = takeWhile (\<lambda>c. c \<noteq> Charts) cs @ Charts # suf \<and> Charts \<notin> set suf
           \<and> dropWhile (\<lambda>c. c \<noteq> Charts) cs = Charts # suf"
proof -
  let ?P = "\<lambda>c. c \<noteq> Charts"
  have "filter (\<lambda>c. c = Charts) cs \<noteq> []"
    using assms by (auto simp: num_charts_def)
  then have "Charts \<in> set cs"
    by (metis (mono_tags, lifting) filter_False)
  then have ne: "dropWhile ?P cs \<noteq> []" by (auto simp: dropWhile_eq_Nil_conv)
  then obtain d suf where d: "dropWhile ?P cs = d # suf" by (cases "dropWhile ?P cs") auto
  have "\<not> ?P (hd (dropWhile ?P cs))" using ne by (rule hd_dropWhile)
  with d have d': "dropWhile ?P cs = Charts # suf" by simp
  have cs: "cs = takeWhile ?P cs @ Charts # suf"
    using takeWhile_dropWhile_id [of ?P cs] d' by simp
  have "filter (\<lambda>c. c = Charts) (takeWhile ?P cs) = []"
    by (auto simp: filter_empty_conv dest: set_takeWhileD)
  then have "num_charts cs = Suc (num_charts suf)"
    unfolding num_charts_def by (subst cs) simp
  with assms have "num_charts suf = 0" by simp
  then have "Charts \<notin> set suf"
    by (auto simp: num_charts_def filter_empty_conv)
  with cs d' show ?thesis by blast
qed

lemma layout_row_valid:
  assumes "num_charts cs = 1"
  shows "layout_row cs (L, R) = Inr (merge_slots L (left_slots cs), merge_slots R (right_slots cs))"
proof -
  let ?P = "\<lambda>c. c \<noteq> Charts"
  let ?pre = "takeWhile ?P cs"
  obtain suf where cs: "cs = ?pre @ Charts # suf" and suf: "Charts \<notin> set suf"
    and d: "dropWhile ?P cs = Charts # suf"
    using split_at_charts [OF assms] by blast
  have pre: "Charts \<notin> set ?pre" by (auto dest: set_takeWhileD)
  let ?wl = "map child_width (filter is_axis ?pre)"
  let ?wr = "map child_width (filter is_axis suf)"
  have count: "fold count_step cs (0, 0, AlignLeft) = (length ?wl, 1, AlignRight)"
    by (simp add: count_fold_left assms)
  have "fold width_step cs (AlignLeft, int (length ?wl) - 1, L, R) =
          fold width_step suf (width_step Charts (fold width_step ?pre (AlignLeft, int (length ?wl) - 1, L, R)))"
    by (subst cs) simp
  also have "\<dots> = fold width_step suf (AlignRight, 0, merge_down L (int (length ?wl) - 1) ?wl, R)"
    by (simp add: width_fold_left [OF pre])
  also have "\<dots> = (AlignRight, int (length ?wr), merge_down L (int (length ?wl) - 1) ?wl, merge_up R 0 ?wr)"
    using width_fold_right [OF suf, of 0] by simp
  finally have walk: "fold width_step cs (AlignLeft, int (length ?wl) - 1, L, R) =
      (AlignRight, int (length ?wr), merge_slots L (rev ?wl), merge_slots R ?wr)"
    by (simp only: merge_down_top merge_up_0)
  have r: "right_slots cs = ?wr"
    by (simp add: right_slots_def d is_axis_def)
  show ?thesis
    unfolding layout_row_def count
    using walk by (simp add: left_slots_def r)
qed

lemma layout_row_invalid:
  "num_charts cs \<noteq> 1 \<Longrightarrow> layout_row cs LR = Inl InvariantViolation"
  by (simp add: layout_row_def count_fold_left)

section \<open>The loop over the rows\<close>

lemma axis_widths_loop_eq:
  "axis_widths_loop es (L, R) =
     (if rows_valid es
      then Inr (merge_rows L (map left_slots (chart_rows es)), merge_rows R (map right_slots (chart_rows es)))
      else Inl InvariantViolation)"
proof (induction es arbitrary: L R)
  case Nil
  show ?case by (simp add: rows_valid_def merge_rows_def)
next
  case (Cons e es)
  show ?case
  proof (cases e)
    case OtherElement
    then show ?thesis using Cons.IH by (simp add: rows_valid_def)
  next
    case (ChartRow cs vis h)
    show ?thesis
    proof (cases "num_charts cs = 1")
      case True
      then show ?thesis
        unfolding ChartRow using Cons.IH
        by (simp add: layout_row_valid rows_valid_def merge_rows_def)
    next
      case False
      then show ?thesis
        unfolding ChartRow by (simp add: layout_row_invalid rows_valid_def)
    qed
  qed
qed

section \<open>Column maxima\<close>

lemma column_max_snoc:
  "column_max (wss @ [ws]) pos =
     (if wss = [] then slot_at ws pos else max (slot_at ws pos) (column_max wss pos))"
  by (cases wss) (simp_all add: column_max_def)

lemma columns_snoc: "columns (wss @ [ws]) = max (length ws) (columns wss)"
  by (simp add: columns_def)

lemma column_max_Max:
  "wss \<noteq> [] \<Longrightarrow> column_max wss pos = Max ((\<lambda>ws. slot_at ws pos) ` set wss)"
proof (induction wss rule: rev_induct)
  case Nil
  then show ?case by simp
next
  case (snoc ws wss)
  show ?case
  proof (cases "wss = []")
    case True
    then show ?thesis by (simp add: column_max_def)
  next
    case False
    then have "column_max wss pos = Max ((\<lambda>ws. slot_at ws pos) ` set wss)"
      by (rule snoc.IH)
    with False show ?thesis
      by (simp add: column_max_snoc)
  qed
qed

lemma columns_Max: "columns wss = Max (insert 0 (length ` set wss))"
proof (induction wss rule: rev_induct)
  case Nil
  show ?case by (simp add: columns_def)
next
  case (snoc ws wss)
  have "Max (insert 0 (length ` set (wss @ [ws]))) = Max (insert (length ws) (insert 0 (length ` set wss)))"
    by (simp add: insert_commute)
  also have "\<dots> = max (length ws) (Max (insert 0 (length ` set wss)))"
    by (rule Max_insert) simp_all
  finally show ?case
    by (simp add: columns_snoc snoc.IH)
qed

lemma slot_at_nonneg: "\<forall>w \<in> set ws. 0 \<le> w \<Longrightarrow> 0 \<le> slot_at ws pos"
  by (simp add: slot_at_def)

lemma column_max_nonneg: "slots_nonneg wss \<Longrightarrow> 0 \<le> column_max wss pos"
proof (induction wss rule: rev_induct)
  case Nil
  show ?case by (simp add: column_max_def)
next
  case (snoc ws wss)
  then have "0 \<le> slot_at ws pos"
    by (simp add: slots_nonneg_def slot_at_nonneg)
  then show ?case
    by (simp add: column_max_snoc max_def)
qed

lemma column_max_beyond: "columns wss \<le> pos \<Longrightarrow> column_max wss pos = 0"
proof (induction wss rule: rev_induct)
  case Nil
  show ?case by (simp add: column_max_def)
next
  case (snoc ws wss)
  then have "length ws \<le> pos" and "columns wss \<le> pos"
    by (simp_all add: columns_snoc)
  then show ?case
    using snoc.IH by (simp add: column_max_snoc slot_at_def)
qed

text \<open>
  With no negative width, merging the rows one after the other into empty arrays leaves
  the column maxima: a stored 0 is replaced by a width that is at least 0.
\<close>

lemma merge_rows_empty:
  "slots_nonneg wss \<Longrightarrow> merge_rows empty_array wss = columns_array wss"
proof (induction wss rule: rev_induct)
  case Nil
  show ?case
    by (simp add: merge_rows_def columns_array_def empty_array_def columns_def)
next
  case (snoc ws wss)
  then have nn: "slots_nonneg wss" and ws: "\<forall>w \<in> set ws. 0 \<le> w"
    by (simp_all add: slots_nonneg_def)
  have IH: "merge_rows empty_array wss = columns_array wss"
    using snoc.IH nn by simp
  have step: "merge_rows empty_array (wss @ [ws]) = merge_slots (columns_array wss) ws"
    using IH by (simp add: merge_rows_def)
  have at: "(if 0 \<le> i \<and> nat i < length ws
             then Some (merge_width (arr_at (columns_array wss) i) (ws ! nat i))
             else arr_at (columns_array wss) i) =
            (if 0 \<le> i \<and> nat i < max (length ws) (columns wss)
             then Some (column_max (wss @ [ws]) (nat i)) else None)" for i
  proof (cases "0 \<le> i")
    case False
    then show ?thesis by (simp add: columns_array_def)
  next
    case True
    define k where "k = nat i"
    have c0: "0 \<le> column_max wss k" by (rule column_max_nonneg [OF nn])
    have empty: "columns wss = 0" if "wss = []" using that by (simp add: columns_def)
    show ?thesis
    proof (cases "k < length ws")
      case inws: True
      then have w0: "0 \<le> ws ! k" using ws by simp
      show ?thesis
      proof (cases "k < columns wss")
        case True
        then have "wss \<noteq> []" using empty by auto
        then show ?thesis
          using True inws w0 c0 \<open>0 \<le> i\<close>
          by (auto simp: columns_array_def merge_width_def column_max_snoc slot_at_def k_def [symmetric] max_def)
      next
        case False
        then have "column_max wss k = 0" by (simp add: column_max_beyond)
        then show ?thesis
          using False inws w0 \<open>0 \<le> i\<close>
          by (auto simp: columns_array_def merge_width_def column_max_snoc slot_at_def k_def [symmetric] max_def)
      qed
    next
      case notin: False
      show ?thesis
      proof (cases "k < columns wss")
        case True
        then have "wss \<noteq> []" using empty by auto
        then show ?thesis
          using True notin c0 \<open>0 \<le> i\<close>
          by (auto simp: columns_array_def column_max_snoc slot_at_def k_def [symmetric] max_def)
      next
        case False
        then show ?thesis
          using notin \<open>0 \<le> i\<close>
          by (auto simp: columns_array_def k_def [symmetric])
      qed
    qed
  qed
  show ?case
    unfolding step
    by (simp add: merge_slots_def at) (simp add: columns_array_def columns_snoc max.commute)
qed

lemma arr_elems_columns_array: "arr_elems (columns_array wss) = map Some (column_widths wss)"
  by (simp add: arr_elems_def columns_array_def column_widths_def)

lemma fold_num_add_Some:
  "fold (\<lambda>b acc. num_add acc b) (map Some xs) (Some a) = Some (a + sum_list xs)"
  by (induction xs arbitrary: a) (simp_all add: num_add_def add.assoc)

lemma reduce_sum_columns_array: "reduce_sum (columns_array wss) = Some (sum_list (column_widths wss))"
  by (simp add: reduce_sum_def arr_elems_columns_array fold_num_add_Some)

text \<open>The rows leave no hole in the arrays, so that the totals are numbers.\<close>

lemma dense_empty: "dense empty_array"
  by (simp add: dense_def empty_array_def)

lemma dense_merge_slots: "dense A \<Longrightarrow> dense (merge_slots A ws)"
  by (auto simp: dense_def merge_slots_def)

lemma dense_merge_rows: "dense A \<Longrightarrow> dense (merge_rows A wss)"
  unfolding merge_rows_def
  by (induction wss arbitrary: A) (simp_all add: dense_merge_slots)

lemma reduce_sum_dense:
  assumes "dense A"
  shows "\<exists>s. reduce_sum A = Some s"
proof -
  define xs where "xs = map (\<lambda>i. the (arr_at A (int i))) [0..<arr_length A]"
  have "arr_elems A = map Some xs"
    using assms by (auto simp: arr_elems_def dense_def xs_def)
  then show ?thesis
    by (simp only: reduce_sum_def fold_num_add_Some) simp
qed

section \<open>What \<open>render\<close> returns\<close>

lemma axis_widths_eq:
  "axis_widths es =
     (if rows_valid es
      then Inr (merge_rows empty_array (map left_slots (chart_rows es)),
                merge_rows empty_array (map right_slots (chart_rows es)))
      else Inl InvariantViolation)"
  by (simp add: axis_widths_def axis_widths_loop_eq)

lemma render_invalid_rows: "\<not> rows_valid (children p) \<Longrightarrow> render p = Inl InvariantViolation"
  by (simp add: render_def axis_widths_eq)

lemma render_no_timerange:
  "rows_valid (children p) \<Longrightarrow> timeRange p = None \<Longrightarrow> render p = Inl InvalidTimerange"
  by (simp add: render_def axis_widths_eq Let_def)

lemma render_Inr:
  assumes "rows_valid (children p)" and "timeRange p = Some tr"
  shows "\<exists>res. render p = Inr res"
  using assms by (simp add: render_def axis_widths_eq Let_def split: prod.splits)

lemma render_InrD:
  assumes "render p = Inr res"
  shows "rows_valid (children p)"
    and "\<exists>tr. timeRange p = Some tr"
    and "leftAxisWidths res = merge_rows empty_array (map left_slots (chart_rows (children p)))"
    and "rightAxisWidths res = merge_rows empty_array (map right_slots (chart_rows (children p)))"
    and "leftWidth res = reduce_sum (leftAxisWidths res)"
    and "rightWidth res = reduce_sum (rightAxisWidths res)"
    and "timeAxisWidth res =
           num_sub (num_sub (num_sub (num_sub (Some (width p)) (leftWidth res)) (rightWidth res))
             (Some (pad_left p))) (Some (pad_right p))"
    and "chartRows res = snd (snd (rows_loop (children p)))"
    and "chartsHeight res = fst (snd (rows_loop (children p)))"
  using assms
  by (auto simp: render_def axis_widths_eq Let_def pad_left_def pad_right_def
      split: if_splits option.splits prod.splits)

lemma render_widths_defined:
  assumes "render p = Inr res"
  shows "\<exists>l r. leftWidth res = Some l \<and> rightWidth res = Some r"
  using render_InrD(3,4,5,6) [OF assms]
    reduce_sum_dense [OF dense_merge_rows [OF dense_empty]]
  by simp

lemma render_scale:
  assumes "render p = Inr res" and "timeRange p = Some tr"
  shows "timeScale res = \<lparr>scale_utc = utc p, scale_domain = (tr_begin tr, tr_end tr),
                          scale_range = (0, timeAxisWidth res)\<rparr>"
  using assms
  by (auto simp: render_def axis_widths_eq Let_def split: if_splits option.splits prod.splits)

lemma render_tracker:
  assumes "render p = Inr res" and "timeRange p = Some tr"
  shows "tracker res =
           (case trackerPosition p of
              None \<Rightarrow> None
            | Some t \<Rightarrow> if contains tr t
                        then Some \<lparr>marker_time = t, marker_width = timeAxisWidth res,
                                   marker_height = chartsHeight res\<rparr>
                        else None)"
  using assms
  by (auto simp: render_def axis_widths_eq Let_def split: if_splits option.splits prod.splits)

lemma left_slots_nonneg: "widths_nonneg es \<Longrightarrow> slots_nonneg (map left_slots (chart_rows es))"
  by (auto simp: widths_nonneg_def slots_nonneg_def left_slots_def dest!: set_takeWhileD)

lemma right_slots_nonneg: "widths_nonneg es \<Longrightarrow> slots_nonneg (map right_slots (chart_rows es))"
  by (auto simp: widths_nonneg_def slots_nonneg_def right_slots_def dest!: set_dropWhileD)

text \<open>Unfolding rules for concrete inputs.\<close>

lemmas valid_defs = rows_valid_def num_charts_def

lemmas width_defs =
  widths_nonneg_def child_width_def slot_width_def is_visible_def number_or_40_def

lemmas column_defs =
  left_slots_def right_slots_def is_axis_def child_width_def slot_width_def is_visible_def
  number_or_40_def column_widths_def columns_def column_max_def slot_at_def

lemmas run_defs =
  axis_widths_def layout_row_def arr_set_def empty_array_def arr_elems_def reduce_sum_def
  slot_width_def is_visible_def number_or_40_def merge_width_def num_add_def num_sub_def

text \<open>The column maxima depend on the set of rows only.\<close>

lemma chart_rows_set: "set (chart_rows es) = {cs. \<exists>vis h. ChartRow cs vis h \<in> set es}"
proof (induction es)
  case Nil
  show ?case by simp
next
  case (Cons e es)
  then show ?case by (cases e) auto
qed

lemma columns_array_cong:
  assumes "set wss = set wss'"
  shows "columns_array wss = columns_array wss'"
proof -
  have c: "columns wss = columns wss'"
    by (simp add: columns_Max assms)
  have e: "wss = [] \<longleftrightarrow> wss' = []"
    using assms by (metis set_empty)
  have m: "column_max wss pos = column_max wss' pos" for pos
  proof (cases "wss = []")
    case True
    with e show ?thesis by simp
  next
    case False
    with e have "wss' \<noteq> []" by simp
    with False show ?thesis by (simp add: column_max_Max assms)
  qed
  show ?thesis
    by (auto simp: columns_array_def c m fun_eq_iff)
qed

lemma rep_plain: "plain_decimal x \<Longrightarrow> Rep_plain_number (plain x) = x"
  by (simp add: plain_def Abs_plain_number_inverse)

lemmas height_defs = parseInt10_def rep_plain plain_decimal_def

lemmas render_run_defs = render_def Let_def rows_loop_def height_defs contains_def run_defs

section \<open>The loop that stacks the rows\<close>

lemma rows_fold:
  "fold rows_step es (i, y, acc) =
     (i + length es, y + sum_list (visible_heights es), acc @ placed_rows i y es)"
proof (induction es arbitrary: i y acc)
  case Nil
  show ?case by simp
next
  case (Cons e es)
  show ?case by (cases e) (simp_all add: Cons.IH)
qed

lemma placed_rows_y:
  "map row_y (placed_rows i y es) =
     map (\<lambda>k. y + sum_list (take k (visible_heights es))) [0..<length (visible_heights es)]"
proof (induction es arbitrary: i y)
  case Nil
  show ?case by simp
next
  case (Cons e es)
  show ?case
  proof (cases e)
    case OtherElement
    then show ?thesis by (simp add: Cons.IH)
  next
    case (ChartRow cs vis h)
    show ?thesis
    proof (cases vis)
      case False
      with ChartRow show ?thesis by (simp add: Cons.IH)
    next
      case True
      with ChartRow show ?thesis
        by (simp add: Cons.IH map_upt_Suc add.assoc del: upt_Suc)
    qed
  qed
qed

lemma rows_loop_eq:
  "rows_loop es = (length es, sum_list (visible_heights es), placed_rows 0 0 es)"
  by (simp add: rows_loop_def rows_fold)

section \<open>The scenario\<close>

lemma scenario_render:
  "\<exists>res. render scenario_props = Inr res \<and> leftWidth res = Some 65 \<and> rightWidth res = Some 30"
  by (simp add: scenario_props_def scenario_rows_def render_run_defs upt_rec)

lemma scenario_pads: "pad_left scenario_props = 0 \<and> pad_right scenario_props = 0"
  by (simp add: scenario_props_def pad_left_def pad_right_def)

section \<open>Durations under the interaction transitions\<close>



lemma duration_scale_around: "duration (scale_around c f r) = duration r * f"
  by (simp add: duration_def scale_around_def algebra_simps)

lemma duration_clamp_duration:
  "duration (clamp_duration cfg c cur r) =
     (case minDuration cfg of None \<Rightarrow> duration r | Some d \<Rightarrow> max d (duration r))"
  by (simp add: clamp_duration_def duration_def Let_def split: option.splits)







section \<open>Positions count from the plot\<close>

lemma declared_left_slot_position:
  assumes "Charts \<notin> set pre" and "Charts \<notin> set mid"
  shows "slot_at (declared_left_slots (pre @ Axis w v # mid @ Charts # suf))
           (length (filter is_axis mid)) = declared_slot_width w v"
proof -
  have "takeWhile (\<lambda>c. c \<noteq> Charts) (xs @ Charts # suf) = xs" if "Charts \<notin> set xs" for xs
    using that by (induction xs) auto
  from this [of "pre @ Axis w v # mid"] assms
  have "declared_left_slots (pre @ Axis w v # mid @ Charts # suf) =
      rev (map declared_width (filter is_axis mid)) @ declared_slot_width w v
        # rev (map declared_width (filter is_axis pre))"
    by (simp add: declared_left_slots_def is_axis_def declared_width_def)
  then show ?thesis
    by (simp add: slot_at_def nth_append)
qed

lemma declared_right_slot_position:
  assumes "Charts \<notin> set pre"
  shows "slot_at (declared_right_slots (pre @ Charts # mid @ Axis w v # suf))
           (length (filter is_axis mid)) = declared_slot_width w v"
proof -
  have "dropWhile (\<lambda>c. c \<noteq> Charts) (pre @ Charts # mid @ Axis w v # suf) = Charts # mid @ Axis w v # suf"
    using assms by (induction pre) auto
  then have "declared_right_slots (pre @ Charts # mid @ Axis w v # suf) =
      map declared_width (filter is_axis mid) @ declared_slot_width w v
        # map declared_width (filter is_axis suf)"
    by (simp add: declared_right_slots_def is_axis_def declared_width_def)
  then show ?thesis
    by (simp add: slot_at_def nth_append)
qed

section \<open>Declared widths and the widths the code uses\<close>

text \<open>
  For a visible slot with a declared width above 0, or none, the spec's width is the value
  of the source's variable \<open>width\<close>; so it is for an invisible slot.
\<close>

lemma declared_width_eq:
  assumes "slot_visible c \<longrightarrow> 0 < declared_width c"
  shows "declared_width c = child_width c"
  using assms
  by (cases c)
    (auto simp: declared_width_def child_width_def declared_slot_width_def slot_width_def
      number_or_40_def slot_visible_def split: option.splits)

lemma declared_slots_eq:
  assumes "widths_positive es" and "cs \<in> set (chart_rows es)"
  shows "declared_left_slots cs = left_slots cs" and "declared_right_slots cs = right_slots cs"
proof -
  have eq: "declared_width c = child_width c" if "c \<in> set cs" for c
    using assms that by (intro declared_width_eq) (simp add: widths_positive_def)
  show "declared_left_slots cs = left_slots cs"
    unfolding declared_left_slots_def left_slots_def
    by (auto intro!: map_cong eq dest: set_takeWhileD)
  show "declared_right_slots cs = right_slots cs"
    unfolding declared_right_slots_def right_slots_def
    by (auto intro!: map_cong eq dest: set_dropWhileD)
qed

lemma declared_rows_eq:
  assumes "widths_positive es"
  shows "map declared_left_slots (chart_rows es) = map left_slots (chart_rows es)"
    and "map declared_right_slots (chart_rows es) = map right_slots (chart_rows es)"
  using declared_slots_eq [OF assms] by simp_all

lemma positive_nonneg: "widths_positive es \<Longrightarrow> widths_nonneg es"
proof -
  assume p: "widths_positive es"
  have "0 \<le> child_width c" if "cs \<in> set (chart_rows es)" and "c \<in> set cs" for cs c
  proof (cases "slot_visible c")
    case True
    then have "0 < declared_width c" using p that by (simp add: widths_positive_def)
    then show ?thesis using declared_width_eq [of c] by simp
  next
    case False
    then show ?thesis
      by (cases c) (simp_all add: child_width_def slot_width_def slot_visible_def)
  qed
  then show ?thesis by (simp add: widths_nonneg_def)
qed

lemmas declared_defs =
  widths_positive_def slot_visible_def declared_width_def declared_slot_width_def is_visible_def

lemmas declared_column_defs =
  declared_left_slots_def declared_right_slots_def is_axis_def declared_width_def
  declared_slot_width_def is_visible_def column_widths_def columns_def column_max_def slot_at_def

section \<open>The entry a slot leaves in the arrays\<close>















section \<open>The properties\<close>

subsection \<open>Axis column widths\<close>

text \<open>
  Claim C1, amended: for every list of rows in which each row has exactly one plot slot and
  every visible slot has a declared width above 0 (or none, which gives 40), the left and
  the right width arrays hold, at each position counted from the plot, the maximum over all
  rows of the row's slot width at that position (0 where a row has no slot there), and
  \<open>leftWidth\<close> and \<open>rightWidth\<close> are the sums of these maxima. A slot's width is the spec's:
  the declared width, 40 by default, 0 when the slot is invisible. Positions count from the
  plot: a column with \<open>k\<close> columns between it and the plot is at position \<open>k\<close>, on either
  side.
\<close>

theorem axis_column_widths:
  assumes "rows_valid (children p)" and "widths_positive (children p)" and "timeRange p = Some tr"
  shows "(\<exists>res. render p = Inr res
      \<and> arr_elems (leftAxisWidths res)
          = map Some (column_widths (map declared_left_slots (chart_rows (children p))))
      \<and> arr_elems (rightAxisWidths res)
          = map Some (column_widths (map declared_right_slots (chart_rows (children p))))
      \<and> leftWidth res
          = Some (sum_list (column_widths (map declared_left_slots (chart_rows (children p)))))
      \<and> rightWidth res
          = Some (sum_list (column_widths (map declared_right_slots (chart_rows (children p))))))
    \<and> (\<forall>pre w v mid suf. Charts \<notin> set pre \<and> Charts \<notin> set mid \<longrightarrow>
          slot_at (declared_left_slots (pre @ Axis w v # mid @ Charts # suf))
            (length (filter is_axis mid)) = declared_slot_width w v)
    \<and> (\<forall>pre mid w v suf. Charts \<notin> set pre \<longrightarrow>
          slot_at (declared_right_slots (pre @ Charts # mid @ Axis w v # suf))
            (length (filter is_axis mid)) = declared_slot_width w v)"
proof -
  have nn: "widths_nonneg (children p)"
    by (rule positive_nonneg [OF assms(2)])
  obtain res where res: "render p = Inr res"
    using render_Inr [OF assms(1,3)] by blast
  have L: "leftAxisWidths res = columns_array (map declared_left_slots (chart_rows (children p)))"
    using render_InrD(3) [OF res] merge_rows_empty [OF left_slots_nonneg [OF nn]]
    by (simp add: declared_rows_eq [OF assms(2)])
  have R: "rightAxisWidths res = columns_array (map declared_right_slots (chart_rows (children p)))"
    using render_InrD(4) [OF res] merge_rows_empty [OF right_slots_nonneg [OF nn]]
    by (simp add: declared_rows_eq [OF assms(2)])
  have widths: "\<exists>res. render p = Inr res
      \<and> arr_elems (leftAxisWidths res)
          = map Some (column_widths (map declared_left_slots (chart_rows (children p))))
      \<and> arr_elems (rightAxisWidths res)
          = map Some (column_widths (map declared_right_slots (chart_rows (children p))))
      \<and> leftWidth res
          = Some (sum_list (column_widths (map declared_left_slots (chart_rows (children p)))))
      \<and> rightWidth res
          = Some (sum_list (column_widths (map declared_right_slots (chart_rows (children p)))))"
    using res render_InrD(5,6) [OF res]
    by (simp add: L R arr_elems_columns_array reduce_sum_columns_array)
  show ?thesis
    using widths declared_left_slot_position declared_right_slot_position by blast
qed

text \<open>
  The spec's scenario: \<open>leftWidths = [40, 25]\<close>, \<open>rightWidths = [30]\<close>, totals 65 and 30.
\<close>

theorem axis_column_widths_scenario:
  "\<exists>res. render scenario_props = Inr res
    \<and> arr_elems (leftAxisWidths res) = [Some 40, Some 25]
    \<and> arr_elems (rightAxisWidths res) = [Some 30]
    \<and> leftWidth res = Some 65
    \<and> rightWidth res = Some 30"
proof -
  have v: "rows_valid (children scenario_props)"
    by (simp add: scenario_props_def scenario_rows_def valid_defs)
  have n: "widths_positive (children scenario_props)"
    by (simp add: scenario_props_def scenario_rows_def declared_defs)
  have t: "timeRange scenario_props = Some \<lparr>tr_begin = 0, tr_end = 100000\<rparr>"
    by (simp add: scenario_props_def)
  have l: "column_widths (map declared_left_slots (chart_rows (children scenario_props))) = [40, 25]"
    by (simp add: scenario_props_def scenario_rows_def declared_column_defs upt_rec)
  have r: "column_widths (map declared_right_slots (chart_rows (children scenario_props))) = [30]"
    by (simp add: scenario_props_def scenario_rows_def declared_column_defs upt_rec)
  show ?thesis
    using axis_column_widths [OF v n t] by (simp add: l r)
qed

text \<open>
  Outside these conditions the arrays do not hold the maxima of the spec's widths. A row
  without columns and a row with one column of width \<open>-5\<close> give \<open>leftWidths = [-5]\<close>, where
  the maximum of 0 and \<open>-5\<close> is 0: a row without a slot at a position takes no part in the
  merge. A column declared 0 wide gives \<open>leftWidths = [40]\<close>, not \<open>[0]\<close>. With a row of two
  plots, or without a time range, \<open>render\<close> returns an error and no widths.
\<close>

theorem negative_width_not_column_max:
  "map_sum id (arr_elems \<circ> leftAxisWidths) (render negative_props) = Inr [Some (- 5)]
   \<and> map Some (column_widths (map declared_left_slots (chart_rows (children negative_props))))
       = [Some 0]
   \<and> rows_valid (children negative_props)
   \<and> map_sum id (arr_elems \<circ> leftAxisWidths) (render zero_width_props) = Inr [Some 40]
   \<and> map Some (column_widths (map declared_left_slots (chart_rows (children zero_width_props))))
       = [Some 0]
   \<and> rows_valid (children zero_width_props)
   \<and> render two_plots_props = Inl InvariantViolation
   \<and> render (scenario_props\<lparr>timeRange := None\<rparr>) = Inl InvalidTimerange"
  by (simp add: negative_props_def zero_width_props_def two_plots_props_def scenario_props_def
      scenario_rows_def render_run_defs valid_defs declared_column_defs upt_rec)

text \<open>
  Claim C7, amended: for rows with exactly one plot slot each and no negative slot width,
  the two width arrays and the two totals are the same for every permutation of the rows.
\<close>

theorem widths_stable_under_reordering:
  assumes "mset es = mset (children p)"
    and "rows_valid (children p)" and "widths_nonneg (children p)" and "timeRange p = Some tr"
  shows "\<exists>res res'. render p = Inr res \<and> render (p\<lparr>children := es\<rparr>) = Inr res'
    \<and> leftAxisWidths res' = leftAxisWidths res \<and> rightAxisWidths res' = rightAxisWidths res
    \<and> leftWidth res' = leftWidth res \<and> rightWidth res' = rightWidth res"
proof -
  let ?p' = "p\<lparr>children := es\<rparr>"
  have "set es = set (children p)"
    using assms(1) by (rule mset_eq_setD)
  then have rows: "set (chart_rows es) = set (chart_rows (children p))"
    by (simp add: chart_rows_set)
  have v': "rows_valid (children ?p')" and n': "widths_nonneg (children ?p')"
    using assms(2,3) rows by (simp_all add: rows_valid_def widths_nonneg_def)
  have t': "timeRange ?p' = Some tr" using assms(4) by simp
  obtain res where res: "render p = Inr res"
    using render_Inr [OF assms(2,4)] by blast
  obtain res' where res': "render ?p' = Inr res'"
    using render_Inr [OF v' t'] by blast
  have L: "leftAxisWidths res = columns_array (map left_slots (chart_rows (children p)))"
    using render_InrD(3) [OF res] merge_rows_empty [OF left_slots_nonneg [OF assms(3)]] by simp
  have R: "rightAxisWidths res = columns_array (map right_slots (chart_rows (children p)))"
    using render_InrD(4) [OF res] merge_rows_empty [OF right_slots_nonneg [OF assms(3)]] by simp
  have L': "leftAxisWidths res' = columns_array (map left_slots (chart_rows es))"
    using render_InrD(3) [OF res'] merge_rows_empty [OF left_slots_nonneg [OF n']] by simp
  have R': "rightAxisWidths res' = columns_array (map right_slots (chart_rows es))"
    using render_InrD(4) [OF res'] merge_rows_empty [OF right_slots_nonneg [OF n']] by simp
  have LL: "leftAxisWidths res' = leftAxisWidths res"
    unfolding L L' by (rule columns_array_cong) (simp add: rows)
  have RR: "rightAxisWidths res' = rightAxisWidths res"
    unfolding R R' by (rule columns_array_cong) (simp add: rows)
  show ?thesis
    using res res' render_InrD(5,6) [OF res] render_InrD(5,6) [OF res'] LL RR by simp
qed

text \<open>The scenario's two rows, swapped.\<close>

theorem widths_stable_scenario:
  "\<exists>res res'. render scenario_props = Inr res
    \<and> render (scenario_props\<lparr>children := rev scenario_rows\<rparr>) = Inr res'
    \<and> leftAxisWidths res' = leftAxisWidths res \<and> rightAxisWidths res' = rightAxisWidths res
    \<and> leftWidth res' = leftWidth res \<and> rightWidth res' = rightWidth res"
proof -
  have m: "mset (rev scenario_rows) = mset (children scenario_props)"
    by (simp add: scenario_props_def)
  have v: "rows_valid (children scenario_props)"
    by (simp add: scenario_props_def scenario_rows_def valid_defs)
  have n: "widths_nonneg (children scenario_props)"
    by (simp add: scenario_props_def scenario_rows_def width_defs)
  have t: "timeRange scenario_props = Some \<lparr>tr_begin = 0, tr_end = 100000\<rparr>"
    by (simp add: scenario_props_def)
  show ?thesis
    using widths_stable_under_reordering [OF m v n t] by simp
qed

text \<open>
  With a negative width the order of the rows matters: a column of width \<open>-5\<close> before an
  invisible column gives \<open>[0]\<close>, the two rows swapped give \<open>[-5]\<close>.
\<close>

theorem negative_width_order_dependent:
  "map_sum id (arr_elems \<circ> leftAxisWidths) (render swap_props) = Inr [Some 0]
   \<and> map_sum id (arr_elems \<circ> leftAxisWidths)
        (render (swap_props\<lparr>children := rev (children swap_props)\<rparr>)) = Inr [Some (- 5)]"
  by (simp add: swap_props_def render_run_defs upt_rec)



subsection \<open>Errors\<close>

text \<open>
  Claim C2, amended: \<open>render\<close> fails with the invariant error exactly when some row has no
  plot slot or more than one; the error ends the whole layout pass, so that no row, valid
  or not, is laid out.
\<close>

theorem invariant_fails_whole_render:
  "(render p = Inl InvariantViolation) = (\<exists>cs \<in> set (chart_rows (children p)). num_charts cs \<noteq> 1)"
proof (cases "rows_valid (children p)")
  case False
  then show ?thesis
    using render_invalid_rows [OF False] by (simp add: rows_valid_def)
next
  case True
  have "render p \<noteq> Inl InvariantViolation"
  proof (cases "timeRange p")
    case None
    then show ?thesis using render_no_timerange [OF True] by simp
  next
    case (Some tr)
    then show ?thesis using render_Inr [OF True Some] by auto
  qed
  with True show ?thesis by (simp add: rows_valid_def)
qed

text \<open>A row without a plot, before a valid row.\<close>

theorem invariant_fails_no_plot:
  "render no_plot_props = Inl InvariantViolation"
proof -
  have "\<exists>cs \<in> set (chart_rows (children no_plot_props)). num_charts cs \<noteq> 1"
    by (simp add: no_plot_props_def num_charts_def)
  then show ?thesis
    using invariant_fails_whole_render [of no_plot_props] by simp
qed

text \<open>
  A valid row followed by a row with two plots: \<open>render\<close> returns the error and no layout,
  also not for the valid row.
\<close>

theorem two_plots_abort_sibling_rows:
  "render two_plots_props = Inl InvariantViolation
   \<and> num_charts (row_children (hd (children two_plots_props))) = 1"
  by (simp add: two_plots_props_def render_run_defs num_charts_def)

text \<open>
  Claim C3, amended: once every row has exactly one plot slot, \<open>render\<close> fails with the
  error for an invalid time range exactly when the time range is absent, and returns a
  layout exactly when it is present. The pixel width and the order of begin and end are
  not checked.
\<close>

theorem timerange_error_iff:
  "(render p = Inl InvalidTimerange) = (rows_valid (children p) \<and> timeRange p = None)
   \<and> ((\<exists>res. render p = Inr res) = (rows_valid (children p) \<and> timeRange p \<noteq> None))"
proof (cases "rows_valid (children p)")
  case False
  then show ?thesis using render_invalid_rows [OF False] by simp
next
  case True
  show ?thesis
  proof (cases "timeRange p")
    case None
    then show ?thesis using True render_no_timerange [OF True None] by simp
  next
    case (Some tr)
    then show ?thesis using True render_Inr [OF True Some] by auto
  qed
qed

text \<open>The scenario without a time range.\<close>

theorem timerange_error_absent:
  "render (scenario_props\<lparr>timeRange := None\<rparr>) = Inl InvalidTimerange"
proof -
  have "rows_valid (children (scenario_props\<lparr>timeRange := None\<rparr>))"
    by (simp add: scenario_props_def scenario_rows_def valid_defs)
  then show ?thesis
    using timerange_error_iff [of "scenario_props\<lparr>timeRange := None\<rparr>"] by simp
qed

text \<open>
  A container 50 wide with 95 pixels of axis columns: no error, the scale gets the range
  \<open>[0, -45]\<close>. A time range from 100000 back to 0: no error, it becomes the domain.
\<close>

theorem narrow_container_no_error:
  "map_sum id timeAxisWidth (render narrow_props) = Inr (Some (- 45))
   \<and> map_sum id (scale_range \<circ> timeScale) (render narrow_props) = Inr (0, Some (- 45))
   \<and> map_sum id (scale_domain \<circ> timeScale) (render reversed_props) = Inr (100000, 0)"
  by (simp add: narrow_props_def reversed_props_def scenario_rows_def render_run_defs upt_rec)

subsection \<open>Pixel width and time scale\<close>

text \<open>
  Claim C6: \<open>leftWidth\<close> and \<open>rightWidth\<close> are numbers, the plot pixel width is the
  container width minus \<open>leftWidth\<close>, \<open>rightWidth\<close> and the left and right padding, and it
  is the end of the scale's range; with width 800,
  \<open>leftWidth\<close> 65, \<open>rightWidth\<close> 30 and no padding it is 705, and the scale over the time
  range from 0 ms to 100000 ms then sends 50000 ms to pixel 352.5.
\<close>

theorem plot_pixel_width:
  assumes "render p = Inr res"
  shows "(\<exists>l r. leftWidth res = Some l \<and> rightWidth res = Some r
            \<and> timeAxisWidth res = Some (width p - l - r - pad_left p - pad_right p)
            \<and> scale_range (timeScale res) = (0, Some (width p - l - r - pad_left p - pad_right p)))
    \<and> (width p = 800 \<and> leftWidth res = Some 65 \<and> rightWidth res = Some 30
         \<and> pad_left p = 0 \<and> pad_right p = 0
         \<longrightarrow> timeAxisWidth res = Some 705
           \<and> (timeRange p = Some \<lparr>tr_begin = 0, tr_end = 100000\<rparr>
                \<longrightarrow> scale_apply (timeScale res) 50000 = Some 352.5))"
proof -
  obtain tr where tr: "timeRange p = Some tr"
    using render_InrD(2) [OF assms] by blast
  obtain l r where l: "leftWidth res = Some l" and r: "rightWidth res = Some r"
    using render_widths_defined [OF assms] by blast
  have w: "timeAxisWidth res = Some (width p - l - r - pad_left p - pad_right p)"
    using render_InrD(7) [OF assms] l r by (simp add: num_sub_def)
  have s: "timeScale res = \<lparr>scale_utc = utc p, scale_domain = (tr_begin tr, tr_end tr),
                            scale_range = (0, timeAxisWidth res)\<rparr>"
    by (rule render_scale [OF assms tr])
  show ?thesis
    using w tr l r by (auto simp: s scale_apply_def)
qed

text \<open>The scenario, whose rows give \<open>leftWidth\<close> 65 and \<open>rightWidth\<close> 30.\<close>

theorem plot_pixel_width_scenario:
  "\<exists>res. render scenario_props = Inr res \<and> timeAxisWidth res = Some 705
     \<and> scale_apply (timeScale res) 50000 = Some 352.5"
proof -
  obtain res where res: "render scenario_props = Inr res"
    and l: "leftWidth res = Some 65" and r: "rightWidth res = Some 30"
    using scenario_render by blast
  have w: "width scenario_props = 800"
    and t: "timeRange scenario_props = Some \<lparr>tr_begin = 0, tr_end = 100000\<rparr>"
    by (simp_all add: scenario_props_def)
  show ?thesis
    using res plot_pixel_width [OF res] l r scenario_pads w t by simp
qed

text \<open>
  Claim C4: for a time range with begin at most end and a plot pixel width above 0, the
  scale built by \<open>render\<close> sends every instant \<open>t\<close> of the time range to a pixel in
  \<open>[0, pixelWidth]\<close> which the inverse sends back to \<open>t\<close>; the scale is linear with a slope
  that is not negative, and it sends begin to 0 and end to the pixel width when begin is
  before end. Over the reals the round trip is exact.
\<close>

theorem time_scale_round_trip:
  assumes "render p = Inr res" and "timeRange p = Some tr" and "tr_begin tr \<le> tr_end tr"
    and "timeAxisWidth res = Some W" and "0 < W"
    and "tr_begin tr \<le> t" and "t \<le> tr_end tr"
  shows "(\<exists>x. scale_apply (timeScale res) t = Some x \<and> 0 \<le> x \<and> x \<le> W
            \<and> scale_invert (timeScale res) x = Some t)
    \<and> (\<exists>a c. 0 \<le> a \<and> (\<forall>u. scale_apply (timeScale res) u = Some (a * u + c)))
    \<and> (tr_begin tr < tr_end tr \<longrightarrow>
          scale_apply (timeScale res) (tr_begin tr) = Some 0
          \<and> scale_apply (timeScale res) (tr_end tr) = Some W)"
proof -
  let ?b = "tr_begin tr" and ?e = "tr_end tr"
  have s: "timeScale res = \<lparr>scale_utc = utc p, scale_domain = (?b, ?e), scale_range = (0, Some W)\<rparr>"
    using render_scale [OF assms(1,2)] assms(4) by simp
  show ?thesis
  proof (cases "?e = ?b")
    case True
    then have tb: "t = ?b" using assms(6,7) by simp
    have "\<forall>u. scale_apply (timeScale res) u = Some (0 * u + 0)"
      using True by (simp add: s scale_apply_def)
    then have lin: "\<exists>a c. (0::real) \<le> a \<and> (\<forall>u. scale_apply (timeScale res) u = Some (a * u + c))"
      by (intro exI [of _ 0]) simp
    show ?thesis
      using True tb assms(5) lin by (simp add: s scale_apply_def scale_invert_def)
  next
    case False
    then have d: "0 < ?e - ?b" using assms(3) by simp
    define x where "x = (t - ?b) / (?e - ?b) * W"
    have ap: "scale_apply (timeScale res) u = Some ((u - ?b) / (?e - ?b) * W)" for u
      using False by (simp add: s scale_apply_def)
    have x0: "0 \<le> x"
      unfolding x_def using d assms(5,6) by simp
    have "(t - ?b) / (?e - ?b) \<le> 1"
      using d assms(7) by simp
    then have "(t - ?b) / (?e - ?b) * W \<le> 1 * W"
      using assms(5) by (intro mult_right_mono) simp_all
    then have x1: "x \<le> W" by (simp add: x_def)
    have inv: "scale_invert (timeScale res) x = Some t"
      using d assms(5) by (simp add: s scale_invert_def x_def)
    have rt: "\<exists>x. scale_apply (timeScale res) t = Some x \<and> 0 \<le> x \<and> x \<le> W
            \<and> scale_invert (timeScale res) x = Some t"
      using ap [of t] x0 x1 inv by (simp add: x_def)
    define D where "D = ?e - ?b"
    have "(u - ?b) / D * W = W / D * u + (- ?b * W / D)" for u
      by (simp add: diff_divide_distrib left_diff_distrib)
    then have "\<forall>u. scale_apply (timeScale res) u = Some (W / (?e - ?b) * u + (- ?b * W / (?e - ?b)))"
      by (simp add: ap D_def)
    moreover have "0 \<le> W / (?e - ?b)" using d assms(5) by simp
    ultimately have lin: "\<exists>a c. 0 \<le> a \<and> (\<forall>u. scale_apply (timeScale res) u = Some (a * u + c))"
      by blast
    have ends: "scale_apply (timeScale res) ?b = Some 0 \<and> scale_apply (timeScale res) ?e = Some W"
      using d by (simp add: ap)
    show ?thesis using rt lin ends by simp
  qed
qed

text \<open>The scenario: 50000 ms is at pixel 352.5, and pixel 352.5 is 50000 ms.\<close>

theorem time_scale_round_trip_scenario:
  "\<exists>res. render scenario_props = Inr res
     \<and> scale_apply (timeScale res) 50000 = Some 352.5
     \<and> scale_invert (timeScale res) 352.5 = Some 50000
     \<and> scale_apply (timeScale res) 0 = Some 0
     \<and> scale_apply (timeScale res) 100000 = Some 705"
proof -
  obtain res where res: "render scenario_props = Inr res"
    and l: "leftWidth res = Some 65" and r: "rightWidth res = Some 30"
    using scenario_render by blast
  have t: "timeRange scenario_props = Some \<lparr>tr_begin = 0, tr_end = 100000\<rparr>"
    by (simp add: scenario_props_def)
  have w: "timeAxisWidth res = Some 705"
    using render_InrD(7) [OF res] l r scenario_pads
    by (simp add: num_sub_def scenario_props_def)
  have s: "timeScale res = \<lparr>scale_utc = utc scenario_props, scale_domain = (0, 100000),
                            scale_range = (0, Some 705)\<rparr>"
    using render_scale [OF res t] w by simp
  have a: "scale_apply (timeScale res) 50000 = Some 352.5"
    by (simp add: s scale_apply_def)
  have "\<exists>x. scale_apply (timeScale res) 50000 = Some x \<and> 0 \<le> x \<and> x \<le> 705
            \<and> scale_invert (timeScale res) x = Some 50000"
    using time_scale_round_trip [OF res t _ w, of 50000] by simp
  then obtain x where "scale_apply (timeScale res) 50000 = Some x"
    and ix: "scale_invert (timeScale res) x = Some 50000"
    by blast
  with a have "x = 352.5" by simp
  with ix have i: "scale_invert (timeScale res) 352.5 = Some 50000"
    by simp
  show ?thesis
    using res a i by (simp add: s scale_apply_def)
qed

subsection \<open>Row offsets and tracker\<close>

text \<open>
  Claim C8, amended: the offsets of the row groups are the cumulative sums, starting at 0,
  of the heights of the visible rows in declaration order, each height as \<open>parseInt\<close> reads
  it: truncated towards zero, for a height that prints without an exponent (0, or a
  magnitude from \<open>1e-6\<close> up to \<open>1e21\<close>), which is what a height is here. The total height is
  the sum of all of them. An invisible row takes no vertical space and has no entry in the
  sequence.
\<close>

theorem row_offsets:
  assumes "rows_valid (children p)" and "timeRange p = Some tr"
  shows "\<exists>res. render p = Inr res
    \<and> map row_y (chartRows res) =
        map (\<lambda>k. sum_list (take k (visible_heights (children p))))
          [0..<length (visible_heights (children p))]
    \<and> chartsHeight res = sum_list (visible_heights (children p))"
proof -
  obtain res where res: "render p = Inr res"
    using render_Inr [OF assms] by blast
  show ?thesis
    using res render_InrD(8,9) [OF res]
    by (simp add: rows_loop_eq placed_rows_y)
qed

text \<open>Rows of height 100, 50 (invisible), 100.5 and 30.\<close>

theorem row_offsets_stack:
  "\<exists>res. render stack_props = Inr res \<and> map row_y (chartRows res) = [0, 100, 200]
     \<and> chartsHeight res = 230"
proof -
  have v: "rows_valid (children stack_props)"
    by (simp add: stack_props_def valid_defs)
  have t: "timeRange stack_props = Some \<lparr>tr_begin = 0, tr_end = 100000\<rparr>"
    by (simp add: stack_props_def)
  have h: "visible_heights (children stack_props) = [100, 100, 30]"
    by (simp add: stack_props_def height_defs)
  show ?thesis
    using row_offsets [OF v t] by (simp add: h upt_rec)
qed

text \<open>
  Of the four rows three have an offset, those with the keys 0, 2 and 3: the invisible row
  is left out. The row after the one of height 100.5 is at 200.
\<close>

theorem invisible_row_left_out:
  "map_sum id (map row_y \<circ> chartRows) (render stack_props) = Inr [0, 100, 200]
   \<and> map_sum id (map row_key \<circ> chartRows) (render stack_props) = Inr [0, 2, 3]
   \<and> length (children stack_props) = 4"
  by (simp add: stack_props_def render_run_defs upt_rec)

text \<open>
  Claim C10: \<open>render\<close> produces the tracker marker exactly when a tracker position is
  given and lies in the time range, ends included; the marker is at that position.
\<close>

theorem tracker_only_inside:
  assumes "rows_valid (children p)" and "timeRange p = Some tr"
  shows "\<exists>res. render p = Inr res
    \<and> ((\<exists>m. tracker res = Some m) =
         (\<exists>t. trackerPosition p = Some t \<and> tr_begin tr \<le> t \<and> t \<le> tr_end tr))
    \<and> (\<forall>m. tracker res = Some m \<longrightarrow> trackerPosition p = Some (marker_time m))"
proof -
  obtain res where res: "render p = Inr res"
    using render_Inr [OF assms] by blast
  show ?thesis
    using res render_tracker [OF res assms(2)]
    by (auto simp: contains_def split: option.splits if_splits)
qed

text \<open>The scenario with the tracker at 50000 ms, and with the tracker at 100001 ms.\<close>

theorem tracker_inside_scenario:
  "(\<exists>res. render (scenario_props\<lparr>trackerPosition := Some 50000\<rparr>) = Inr res
      \<and> (\<exists>m. tracker res = Some m))
   \<and> (\<exists>res. render (scenario_props\<lparr>trackerPosition := Some 100001\<rparr>) = Inr res
      \<and> tracker res = None)"
proof -
  let ?p = "scenario_props\<lparr>trackerPosition := Some 50000\<rparr>"
  let ?q = "scenario_props\<lparr>trackerPosition := Some 100001\<rparr>"
  have v: "rows_valid (children ?p)" and v': "rows_valid (children ?q)"
    by (simp_all add: scenario_props_def scenario_rows_def valid_defs)
  have t: "timeRange ?p = Some \<lparr>tr_begin = 0, tr_end = 100000\<rparr>"
    and t': "timeRange ?q = Some \<lparr>tr_begin = 0, tr_end = 100000\<rparr>"
    by (simp_all add: scenario_props_def)
  have "\<exists>res. render ?p = Inr res \<and> (\<exists>m. tracker res = Some m)"
    using tracker_only_inside [OF v t] by auto
  moreover have "\<exists>res. render ?q = Inr res \<and> tracker res = None"
    using tracker_only_inside [OF v' t'] by auto
  ultimately show ?thesis by blast
qed

subsection \<open>Time ranges produced by the interactions\<close>



end
